theory Spec2Isabelle
  imports Complex_Main "HOL-Library.Stream"
begin

section \<open>The battle library \<open>xe_battle_lib_v2.py\<close>\<close>

text \<open>
  The embedding follows \<open>src/battle/xe_battle_lib_v2.py\<close> function by function.

  \<^item> Python's unbounded integers are \<open>int\<close>; list positions are \<open>nat\<close> (the active
    indices start at 0 and are only ever assigned a value of \<open>range(current + 1, len)\<close>).
  \<^item> The global random generator is an explicit stream of draws: every call of
    \<open>random.random()\<close> takes the head of the stream.
  \<^item> A float is the rational number it denotes. Every float operation of the source
    (a literal, the conversion of an integer, \<open>+\<close>, \<open>-\<close>, \<open>*\<close>) is the exact
    operation followed by rounding to the nearest double, ties to even. The exponent range
    of doubles is not bounded in the model: overflow and subnormal numbers, which need
    magnitudes above 1.8e308 or below 2.3e-308, are left out.
  \<^item> The draws of \<open>random.random()\<close> are multiples of \<open>2^-53\<close>. For these,
    comparing with the doubles \<open>0.1\<close>, \<open>0.3\<close>, \<open>0.5\<close> is comparing with the rationals
    1/10, 3/10, 1/2 (lemma \<open>thresholds_as_doubles\<close>), and the comparisons are written
    with the rationals.
  \<^item> \<open>BattleBall\<close> objects are mutable and are reached through references. A reference
    is the slot of the object: the team list and the position in it. The two team lists
    are never restructured by the library, only the objects in them are mutated, so a
    slot identifies an object. The units of one match are distinct objects (the callers
    construct a fresh \<open>BattleBall\<close> for every slot).
  \<^item> An attribute access on \<open>None\<close> is an error value of the model.
  \<^item> Message texts are kept as a list of fragments, one per f-string of the source.
\<close>

subsection \<open>Data\<close>

datatype MoveType = ATTACK | HEAVY_ATTACK | DEFEND | HEAL

text \<open>The fields \<open>name\<close> and \<open>emoji\<close> of \<open>BattleMove\<close> carry the prefix \<open>move_\<close>,
  since \<open>BattleBall\<close> has fields of the same names. Emoji are written by their short names.\<close>

record BattleMove =
  move_name :: string
  move_type :: MoveType
  description :: string
  move_emoji :: string

record BattleBall =
  name :: string
  owner :: string
  health :: int
  attack :: int
  max_health :: int
  emoji :: string
  dead :: bool
  defending :: bool

record TurnAction =
  player :: string
  ball_index :: int
  move :: string
  target_index :: int

datatype fragment =
    Missed string
  | HeavyMissed string
  | CritHit string int string
  | Dealt string int string
  | HeavyLanded string int string
  | IsDefending string
  | Healed string int
  | ReducedByDefend
  | KnockedOut string
  | Enters string

record move_result =
  success :: bool
  damage :: int
  heal :: int
  message :: "fragment list"
  crit :: bool
  miss :: bool

text \<open>What \<open>_execute_single_action\<close> returns: the result dictionary of a move, or one of
  the two dictionaries \<open>{"message": "Error: ...", "success": False}\<close>.\<close>

datatype event = MoveEvent move_result | ErrorEvent string

datatype side = P1 | P2

type_synonym ball_ref = "side \<times> nat"

record turn_record =
  turn :: int
  events :: "event list"
  p1_active :: "ball_ref option"
  p2_active :: "ball_ref option"

record BattleInstance =
  p1_name :: string
  p2_name :: string
  p1_balls :: "BattleBall list"
  p2_balls :: "BattleBall list"
  p1_active_index :: nat
  p2_active_index :: nat
  current_turn :: int
  turn_history :: "turn_record list"
  winner :: "string option"
  p1_ready :: bool
  p2_ready :: bool

datatype py_error = ValueError string | AttributeError

text \<open>The database objects handed to \<open>create_battle_from_instances\<close> are defined outside
  the repository; the record holds the attributes the function reads (\<open>ball.ball.country\<close>,
  \<open>ball.health\<close>, \<open>ball.attack\<close>, and \<open>ball.ball.emoji_id\<close> when the attribute exists).\<close>

record BallInstance =
  country :: string
  inst_health :: int
  inst_attack :: int
  emoji_id :: "string option"

subsection \<open>Floats\<close>

text \<open>The number of binary digits of a positive integer.\<close>

function bit_length :: "int \<Rightarrow> int" where
  "bit_length n = (if n \<le> 0 then 0 else bit_length (n div 2) + 1)"
  by pat_completeness auto
termination
  by (relation "measure nat") auto

declare bit_length.simps [simp del]

text \<open>The binary exponent of a number other than 0: the \<open>e\<close> with \<open>2^e \<le> |x| < 2^(e+1)\<close>.\<close>

definition exponent :: "rat \<Rightarrow> int" where
  "exponent x =
     (if 1 \<le> \<bar>x\<bar> then bit_length \<lfloor>\<bar>x\<bar>\<rfloor> - 1
      else - bit_length (\<lceil>1 / \<bar>x\<bar>\<rceil> - 1))"

definition scale2 :: "int \<Rightarrow> rat \<Rightarrow> rat" where
  "scale2 s x = (if 0 \<le> s then x * 2 ^ nat s else x / 2 ^ nat (- s))"

definition round_half_even :: "rat \<Rightarrow> int" where
  "round_half_even x =
     (let f = \<lfloor>x\<rfloor>; d = x - of_int f
      in if d < 1 / 2 then f else if 1 / 2 < d then f + 1 else if even f then f else f + 1)"

text \<open>Rounding to a significand of 53 binary digits, to nearest, ties to even.\<close>

definition nearest_double :: "rat \<Rightarrow> rat" where
  "nearest_double x =
     (if x = 0 then 0
      else (let s = 52 - exponent x
            in scale2 (- s) (of_int (round_half_even (scale2 s x)))))"

definition float_add :: "rat \<Rightarrow> rat \<Rightarrow> rat" where
  "float_add x y = nearest_double (x + y)"

definition float_sub :: "rat \<Rightarrow> rat \<Rightarrow> rat" where
  "float_sub x y = nearest_double (x - y)"

definition float_mul :: "rat \<Rightarrow> rat \<Rightarrow> rat" where
  "float_mul x y = nearest_double (x * y)"

text \<open>The conversion of the integer operand in \<open>n * x\<close> with a float \<open>x\<close>.\<close>

definition int_to_float :: "int \<Rightarrow> rat" where
  "int_to_float n = nearest_double (of_int n)"

text \<open>\<open>int(x)\<close> truncates toward zero.\<close>

definition py_int :: "rat \<Rightarrow> int" where
  "py_int x = (if 0 \<le> x then \<lfloor>x\<rfloor> else \<lceil>x\<rceil>)"

subsection \<open>Random draws\<close>

type_synonym rng = "rat stream"

definition random_random :: "rng \<Rightarrow> rat \<times> rng" where
  "random_random g = (shd g, stl g)"

text \<open>\<open>random.uniform(a, b)\<close> is \<open>a + (b - a) * self.random()\<close>, computed in floats.\<close>

definition random_uniform :: "rat \<Rightarrow> rat \<Rightarrow> rng \<Rightarrow> rat \<times> rng" where
  "random_uniform a b g =
     (let (r, g') = random_random g in (float_add a (float_mul (float_sub b a) r), g'))"

subsection \<open>The store of units\<close>

fun team :: "side \<Rightarrow> BattleInstance \<Rightarrow> BattleBall list" where
  "team P1 b = p1_balls b"
| "team P2 b = p2_balls b"

fun get_ball :: "BattleInstance \<Rightarrow> ball_ref \<Rightarrow> BattleBall" where
  "get_ball b (s, i) = team s b ! i"

fun upd_ball :: "ball_ref \<Rightarrow> (BattleBall \<Rightarrow> BattleBall) \<Rightarrow> BattleInstance \<Rightarrow> BattleInstance" where
  "upd_ball (P1, i) f b = b\<lparr>p1_balls := (p1_balls b)[i := f (p1_balls b ! i)]\<rparr>"
| "upd_ball (P2, i) f b = b\<lparr>p2_balls := (p2_balls b)[i := f (p2_balls b ! i)]\<rparr>"

subsection \<open>\<open>BattleMove.execute\<close>\<close>

definition knock_out :: "ball_ref \<Rightarrow> BattleInstance \<Rightarrow> BattleInstance" where
  "knock_out defender b =
     (if health (get_ball b defender) \<le> 0
      then upd_ball defender (\<lambda>x. x\<lparr>health := 0, dead := True\<rparr>) b
      else b)"

definition execute ::
  "BattleMove \<Rightarrow> ball_ref \<Rightarrow> ball_ref \<Rightarrow> BattleInstance \<Rightarrow> rng
     \<Rightarrow> move_result \<times> BattleInstance \<times> rng" where
  "execute mv attacker defender b g =
     (let result = \<lparr>success = False, damage = 0, heal = 0, message = [],
                     crit = False, miss = False\<rparr>;
          (r, g) = random_random g
      in if r < 1 / 10
         then (result\<lparr>miss := True, message := [Missed (name (get_ball b attacker))]\<rparr>, b, g)
         else (case move_type mv of
           ATTACK \<Rightarrow>
             (let (m, g) = random_uniform (nearest_double (4 / 5)) (nearest_double (6 / 5)) g;
                  dmg = py_int (float_mul (int_to_float (attack (get_ball b attacker))) m);
                  (c, g) = random_random g;
                  (dmg, result) =
                     (if c < 1 / 10
                      then (py_int (float_mul (int_to_float dmg) (3 / 2)),
                            result\<lparr>crit := True\<rparr>)
                      else (dmg, result));
                  b = upd_ball defender (\<lambda>x. x\<lparr>health := health x - dmg\<rparr>) b;
                  result = result\<lparr>damage := dmg, success := True\<rparr>;
                  result = result\<lparr>message :=
                     [if crit result
                      then CritHit (name (get_ball b attacker)) dmg (name (get_ball b defender))
                      else Dealt (name (get_ball b attacker)) dmg (name (get_ball b defender))]\<rparr>
              in (result, knock_out defender b, g))
         | HEAVY_ATTACK \<Rightarrow>
             (let (h, g) = random_random g
              in if h < 3 / 10
                 then (result\<lparr>miss := True,
                         message := [HeavyMissed (name (get_ball b attacker))]\<rparr>, b, g)
                 else
                   (let (m, g) = random_uniform (nearest_double (6 / 5))
                                   (nearest_double (9 / 5)) g;
                        dmg = py_int (float_mul (int_to_float (attack (get_ball b attacker))) m);
                        b = upd_ball defender (\<lambda>x. x\<lparr>health := health x - dmg\<rparr>) b;
                        result = result\<lparr>damage := dmg, success := True,
                           message := [HeavyLanded (name (get_ball b attacker)) dmg
                                         (name (get_ball b defender))]\<rparr>
                    in (result, knock_out defender b, g)))
         | DEFEND \<Rightarrow>
             (let b = upd_ball attacker (\<lambda>x. x\<lparr>defending := True\<rparr>) b;
                  result = result\<lparr>success := True,
                     message := [IsDefending (name (get_ball b attacker))]\<rparr>
              in (result, knock_out defender b, g))
         | HEAL \<Rightarrow>
             (let heal_amount = py_int (float_mul (int_to_float (max_health (get_ball b attacker)))
                                          (nearest_double (1 / 5)));
                  old_health = health (get_ball b attacker);
                  b = upd_ball attacker
                        (\<lambda>x. x\<lparr>health := min (health x + heal_amount) (max_health x)\<rparr>) b;
                  actual_heal = health (get_ball b attacker) - old_health;
                  result = result\<lparr>heal := actual_heal, success := True,
                     message := [Healed (name (get_ball b attacker)) actual_heal]\<rparr>
              in (result, knock_out defender b, g))))"

definition MOVES :: "string \<rightharpoonup> BattleMove" where
  "MOVES =
     [''attack'' \<mapsto> \<lparr>move_name = ''Quick Attack'', move_type = ATTACK,
                       description = ''A standard attack'', move_emoji = ''crossed_swords''\<rparr>,
      ''heavy'' \<mapsto> \<lparr>move_name = ''Heavy Strike'', move_type = HEAVY_ATTACK,
                      description = ''Powerful but risky'', move_emoji = ''muscle''\<rparr>,
      ''defend'' \<mapsto> \<lparr>move_name = ''Defend'', move_type = DEFEND,
                       description = ''Brace for impact'', move_emoji = ''shield''\<rparr>,
      ''heal'' \<mapsto> \<lparr>move_name = ''Recover'', move_type = HEAL,
                     description = ''Restore some HP'', move_emoji = ''green_heart''\<rparr>]"

subsection \<open>\<open>BattleBall\<close>\<close>

definition post_init :: "BattleBall \<Rightarrow> BattleBall" where
  "post_init x = (if max_health x = 0 then x\<lparr>max_health := health x\<rparr> else x)"

text \<open>The generated constructor followed by \<open>__post_init__\<close>. An omitted keyword is
  \<open>None\<close> here and takes the default of the dataclass field.\<close>

definition new_BattleBall ::
  "string \<Rightarrow> string \<Rightarrow> int \<Rightarrow> int \<Rightarrow> int option \<Rightarrow> string option \<Rightarrow> bool option \<Rightarrow> bool option
     \<Rightarrow> BattleBall" where
  "new_BattleBall n ow h a mh e d df =
     post_init \<lparr>name = n, owner = ow, health = h, attack = a,
                max_health = (case mh of None \<Rightarrow> 0 | Some v \<Rightarrow> v),
                emoji = (case e of None \<Rightarrow> [] | Some v \<Rightarrow> v),
                dead = (case d of None \<Rightarrow> False | Some v \<Rightarrow> v),
                defending = (case df of None \<Rightarrow> False | Some v \<Rightarrow> v)\<rparr>"

subsection \<open>\<open>BattleInstance\<close>\<close>

definition get_active_ball :: "BattleInstance \<Rightarrow> string \<Rightarrow> ball_ref option" where
  "get_active_ball b p =
     (if p = p1_name b
      then (if p1_active_index b < length (p1_balls b)
            then Some (P1, p1_active_index b) else None)
      else (if p2_active_index b < length (p2_balls b)
            then Some (P2, p2_active_index b) else None))"

definition get_next_alive_ball_index :: "BattleInstance \<Rightarrow> string \<Rightarrow> nat option" where
  "get_next_alive_ball_index b p =
     (let balls = (if p = p1_name b then p1_balls b else p2_balls b);
          current_index = (if p = p1_name b then p1_active_index b else p2_active_index b)
      in find (\<lambda>i. \<not> dead (balls ! i)) [current_index + 1 ..< length balls])"

definition switch_to_next_ball :: "BattleInstance \<Rightarrow> string \<Rightarrow> bool \<times> BattleInstance" where
  "switch_to_next_ball b p =
     (case get_next_alive_ball_index b p of
        None \<Rightarrow> (False, b)
      | Some next_index \<Rightarrow>
          (True, if p = p1_name b then b\<lparr>p1_active_index := next_index\<rparr>
                 else b\<lparr>p2_active_index := next_index\<rparr>))"

definition is_battle_over :: "BattleInstance \<Rightarrow> bool" where
  "is_battle_over b =
     (let p1_alive = list_ex (\<lambda>ball. \<not> dead ball) (p1_balls b);
          p2_alive = list_ex (\<lambda>ball. \<not> dead ball) (p2_balls b)
      in \<not> (p1_alive \<and> p2_alive))"

definition get_winner :: "BattleInstance \<Rightarrow> string option" where
  "get_winner b =
     (let p1_alive = list_ex (\<lambda>ball. \<not> dead ball) (p1_balls b);
          p2_alive = list_ex (\<lambda>ball. \<not> dead ball) (p2_balls b)
      in if \<not> p1_alive \<and> \<not> p2_alive then Some ''Draw''
         else if \<not> p1_alive then Some (p2_name b)
         else if \<not> p2_alive then Some (p1_name b)
         else None)"

text \<open>\<open>_execute_single_action\<close> is given in three parts, cut where the source has its
  comments: the resolution of the move with the defend bonus (lines 265 to 278), the switch
  after a knock-out (lines 280 to 292), and the function itself.\<close>

definition apply_defend_bonus ::
  "BattleMove \<Rightarrow> ball_ref \<Rightarrow> ball_ref \<Rightarrow> BattleInstance \<Rightarrow> rng
     \<Rightarrow> move_result \<times> BattleInstance \<times> rng" where
  "apply_defend_bonus mv attacker defender b g =
     (if defending (get_ball b defender) \<and> move_type mv \<in> {ATTACK, HEAVY_ATTACK}
      then
        (let (result, b, g) = execute mv attacker defender b g;
             (result, b) =
               (if damage result \<noteq> 0
                then
                  (let original_damage = damage result;
                       result = result\<lparr>damage :=
                                  py_int (float_mul (int_to_float (damage result)) (1 / 2))\<rparr>;
                       b = upd_ball defender
                             (\<lambda>x. x\<lparr>health := health x + (original_damage - damage result)\<rparr>) b;
                       result = result\<lparr>message := message result @ [ReducedByDefend]\<rparr>
                   in (result, b))
                else (result, b));
             b = upd_ball defender (\<lambda>x. x\<lparr>defending := False\<rparr>) b
         in (result, b, g))
      else
        (let (result, b, g) = execute mv attacker defender b g;
             b = (if defending (get_ball b defender)
                  then upd_ball defender (\<lambda>x. x\<lparr>defending := False\<rparr>) b else b)
         in (result, b, g)))"

definition switch_if_dead ::
  "string \<Rightarrow> ball_ref \<Rightarrow> move_result \<Rightarrow> BattleInstance \<Rightarrow> rng
     \<Rightarrow> py_error + (event \<times> BattleInstance \<times> rng)" where
  "switch_if_dead p defender result b g =
     (if dead (get_ball b defender)
      then
        (let result = result\<lparr>message :=
                        message result @ [KnockedOut (name (get_ball b defender))]\<rparr>;
             opponent = (if p = p1_name b then p2_name b else p1_name b);
             (switched, b) = switch_to_next_ball b opponent
         in if switched
            then (case get_active_ball b opponent of
                    None \<Rightarrow> Inl AttributeError
                  | Some next_ball \<Rightarrow>
                      Inr (MoveEvent (result\<lparr>message :=
                             message result @ [Enters (name (get_ball b next_ball))]\<rparr>), b, g))
            else Inr (MoveEvent result, b, g))
      else Inr (MoveEvent result, b, g))"

definition execute_single_action ::
  "BattleInstance \<Rightarrow> string \<Rightarrow> TurnAction \<Rightarrow> rng \<Rightarrow> py_error + (event \<times> BattleInstance \<times> rng)" where
  "execute_single_action b p action g =
     (case get_active_ball b p of
        None \<Rightarrow> Inr (ErrorEvent ''Error: Ball not found'', b, g)
      | Some attacker \<Rightarrow>
     (case get_active_ball b (if p = p1_name b then p2_name b else p1_name b) of
        None \<Rightarrow> Inr (ErrorEvent ''Error: Ball not found'', b, g)
      | Some defender \<Rightarrow>
     (case MOVES (move action) of
        None \<Rightarrow> Inr (ErrorEvent ''Error: Invalid move'', b, g)
      | Some mv \<Rightarrow>
         (let (result, b, g) = apply_defend_bonus mv attacker defender b g
          in switch_if_dead p defender result b g))))"

text \<open>\<open>execute_turn\<close>, likewise: the order of the two actions (lines 220 to 229), the
  second action and the end of the round (lines 240 to 251), and the function itself.\<close>

definition turn_order ::
  "BattleInstance \<Rightarrow> ball_ref \<Rightarrow> ball_ref \<Rightarrow> TurnAction \<Rightarrow> TurnAction \<Rightarrow> rng
     \<Rightarrow> (string \<times> TurnAction) \<times> (string \<times> TurnAction) \<times> rng" where
  "turn_order b p1_ball p2_ball p1_action p2_action g =
     (if attack (get_ball b p1_ball) > attack (get_ball b p2_ball)
      then ((p1_name b, p1_action), (p2_name b, p2_action), g)
      else if attack (get_ball b p2_ball) > attack (get_ball b p1_ball)
      then ((p2_name b, p2_action), (p1_name b, p1_action), g)
      else (let (t, g) = random_random g
            in if t < 1 / 2
               then ((p1_name b, p1_action), (p2_name b, p2_action), g)
               else ((p2_name b, p2_action), (p1_name b, p1_action), g)))"

definition second_action ::
  "BattleInstance \<Rightarrow> string \<times> TurnAction \<Rightarrow> turn_record \<Rightarrow> rng
     \<Rightarrow> py_error + (turn_record \<times> BattleInstance \<times> rng)" where
  "second_action b second turn_result g =
     (case (case get_active_ball b (fst second) of
              None \<Rightarrow> Inr (turn_result, b, g)
            | Some second_ball \<Rightarrow>
                if \<not> dead (get_ball b second_ball)
                then (case execute_single_action b (fst second) (snd second) g of
                        Inl e \<Rightarrow> Inl e
                      | Inr (result2, b, g) \<Rightarrow>
                          Inr (turn_result\<lparr>events := events turn_result @ [result2]\<rparr>, b, g))
                else Inr (turn_result, b, g)) of
        Inl e \<Rightarrow> Inl e
      | Inr (turn_result, b, g) \<Rightarrow>
          (let b = (if is_battle_over b then b\<lparr>winner := get_winner b\<rparr> else b);
               b = b\<lparr>turn_history := turn_history b @ [turn_result]\<rparr>
           in Inr (turn_result, b, g)))"

definition execute_turn ::
  "BattleInstance \<Rightarrow> TurnAction \<Rightarrow> TurnAction \<Rightarrow> rng
     \<Rightarrow> py_error + (turn_record \<times> BattleInstance \<times> rng)" where
  "execute_turn b p1_action p2_action g =
     (let b = b\<lparr>current_turn := current_turn b + 1\<rparr>;
          turn_result = \<lparr>turn = current_turn b, events = [],
                          p1_active = get_active_ball b (p1_name b),
                          p2_active = get_active_ball b (p2_name b)\<rparr>
      in case get_active_ball b (p1_name b) of
           None \<Rightarrow> Inr (turn_result, b, g)
         | Some p1_ball \<Rightarrow>
        (case get_active_ball b (p2_name b) of
           None \<Rightarrow> Inr (turn_result, b, g)
         | Some p2_ball \<Rightarrow>
        (let (first, second, g) = turn_order b p1_ball p2_ball p1_action p2_action g
         in case execute_single_action b (fst first) (snd first) g of
              Inl e \<Rightarrow> Inl e
            | Inr (result1, b, g) \<Rightarrow>
           (let turn_result = turn_result\<lparr>events := events turn_result @ [result1]\<rparr>
            in if is_battle_over b
               then Inr (turn_result, b\<lparr>winner := get_winner b\<rparr>, g)
               else second_action b second turn_result g))))"

subsection \<open>\<open>create_battle_from_instances\<close>\<close>

definition new_BattleInstance ::
  "string \<Rightarrow> string \<Rightarrow> BattleBall list \<Rightarrow> BattleBall list \<Rightarrow> BattleInstance" where
  "new_BattleInstance n1 n2 bs1 bs2 =
     \<lparr>p1_name = n1, p2_name = n2, p1_balls = bs1, p2_balls = bs2,
      p1_active_index = 0, p2_active_index = 0, current_turn = 0, turn_history = [],
      winner = Some [], p1_ready = False, p2_ready = False\<rparr>"

definition create_battle_from_instances ::
  "string \<Rightarrow> string \<Rightarrow> BallInstance list \<Rightarrow> BallInstance list \<Rightarrow> py_error + BattleInstance" where
  "create_battle_from_instances n1 n2 p1_ball_instances p2_ball_instances =
     (if length p1_ball_instances \<noteq> 5 \<or> length p2_ball_instances \<noteq> 5
      then Inl (ValueError ''Each player must have exactly 5 balls!'')
      else
        (let mk = (\<lambda>ow ball. new_BattleBall (country ball) ow (inst_health ball)
                      (inst_attack ball) (Some (inst_health ball))
                      (Some (case emoji_id ball of Some e \<Rightarrow> e | None \<Rightarrow> []))
                      None None);
             bs1 = map (mk n1) p1_ball_instances;
             bs2 = map (mk n2) p2_ball_instances
         in Inr (new_BattleInstance n1 n2 bs1 bs2)))"

subsection \<open>Notions used in the statements\<close>

text \<open>A team is alive when one of its units is not dead: the \<open>any(...)\<close> of
  \<open>is_battle_over\<close> and \<open>get_winner\<close>.\<close>

definition alive :: "side \<Rightarrow> BattleInstance \<Rightarrow> bool" where
  "alive s b = list_ex (\<lambda>ball. \<not> dead ball) (team s b)"

fun other :: "side \<Rightarrow> side" where
  "other P1 = P2" | "other P2 = P1"

definition side_of :: "BattleInstance \<Rightarrow> string \<Rightarrow> side" where
  "side_of b p = (if p = p1_name b then P1 else P2)"

definition opponent_of :: "BattleInstance \<Rightarrow> string \<Rightarrow> string" where
  "opponent_of b p = (if p = p1_name b then p2_name b else p1_name b)"

definition dead_le :: "BattleBall list \<Rightarrow> BattleBall list \<Rightarrow> bool" where
  "dead_le xs ys = list_all2 (\<lambda>x y. dead x \<longrightarrow> dead y) xs ys"

definition evolves :: "side \<Rightarrow> BattleInstance \<Rightarrow> BattleInstance \<Rightarrow> bool" where
  "evolves d b b' \<longleftrightarrow>
     p1_name b' = p1_name b \<and> p2_name b' = p2_name b \<and> winner b' = winner b \<and>
     turn_history b' = turn_history b \<and> current_turn b' = current_turn b \<and>
     dead_le (team d b) (team d b') \<and>
     length (team (other d) b') = length (team (other d) b) \<and>
     map dead (team (other d) b') = map dead (team (other d) b)"

text \<open>The invariant of a unit, as the specification words it.\<close>

definition health_invariant :: "BattleBall \<Rightarrow> bool" where
  "health_invariant x = (0 \<le> health x \<and> health x \<le> max_health x \<and> dead x = (health x = 0))"

subsection \<open>Concrete matches\<close>

text \<open>Units and actions as the battle cog builds them: \<open>max_health\<close> is passed equal to
  \<open>health\<close>, the emoji is empty, and an action is \<open>TurnAction(name, 0, move)\<close>.\<close>

definition unit_of :: "string \<Rightarrow> string \<Rightarrow> int \<Rightarrow> int \<Rightarrow> BattleBall" where
  "unit_of n ow h a = new_BattleBall n ow h a (Some h) (Some []) None None"

definition fainted_unit :: "string \<Rightarrow> string \<Rightarrow> int \<Rightarrow> int \<Rightarrow> BattleBall" where
  "fainted_unit n ow h a = (unit_of n ow h a)\<lparr>health := 0, dead := True\<rparr>"

definition action_of :: "string \<Rightarrow> string \<Rightarrow> TurnAction" where
  "action_of p m = \<lparr>player = p, ball_index = 0, move = m, target_index = 0\<rparr>"

text \<open>A fresh match of three against three; the first unit of alice has \<open>h\<close> health points
  and the higher attack, so alice acts first.\<close>

definition fresh_match :: "int \<Rightarrow> BattleInstance" where
  "fresh_match h = new_BattleInstance ''alice'' ''bob''
     [unit_of ''A1'' ''alice'' h 50, unit_of ''A2'' ''alice'' 100 45, unit_of ''A3'' ''alice'' 100 45]
     [unit_of ''B1'' ''bob'' 100 40, unit_of ''B2'' ''bob'' 100 30, unit_of ''B3'' ''bob'' 100 30]"

text \<open>A fresh match in which the first unit of bob has 10 health points left.\<close>

definition weak_lead_match :: BattleInstance where
  "weak_lead_match = new_BattleInstance ''alice'' ''bob''
     [unit_of ''A1'' ''alice'' 100 50, unit_of ''A2'' ''alice'' 100 45, unit_of ''A3'' ''alice'' 100 45]
     [unit_of ''B1'' ''bob'' 10 40, unit_of ''B2'' ''bob'' 100 30, unit_of ''B3'' ''bob'' 100 30]"

text \<open>Late in a match: each side is down to its third unit, with 10 health points.\<close>

definition last_units_match :: BattleInstance where
  "last_units_match = (new_BattleInstance ''alice'' ''bob''
     [fainted_unit ''A1'' ''alice'' 100 45, fainted_unit ''A2'' ''alice'' 100 45,
      unit_of ''A3'' ''alice'' 10 50]
     [fainted_unit ''B1'' ''bob'' 100 30, fainted_unit ''B2'' ''bob'' 100 30,
      unit_of ''B3'' ''bob'' 10 40])
     \<lparr>p1_active_index := 2, p2_active_index := 2, current_turn := 7\<rparr>"

text \<open>A match that bob has won: every unit of alice is dead.\<close>

definition finished_match :: BattleInstance where
  "finished_match = (new_BattleInstance ''alice'' ''bob''
     [fainted_unit ''A1'' ''alice'' 100 45, fainted_unit ''A2'' ''alice'' 100 45,
      fainted_unit ''A3'' ''alice'' 100 50]
     [fainted_unit ''B1'' ''bob'' 100 30, fainted_unit ''B2'' ''bob'' 100 30,
      unit_of ''B3'' ''bob'' 10 40])
     \<lparr>p1_active_index := 2, p2_active_index := 2, current_turn := 8, winner := Some ''bob''\<rparr>"

definition three_instances :: "BallInstance list" where
  "three_instances =
     [\<lparr>country = ''France'', inst_health = 100, inst_attack = 50, emoji_id = None\<rparr>,
      \<lparr>country = ''Spain'', inst_health = 90, inst_attack = 60, emoji_id = None\<rparr>,
      \<lparr>country = ''Italy'', inst_health = 80, inst_attack = 70, emoji_id = None\<rparr>]"

definition five_instances :: "BallInstance list" where
  "five_instances = three_instances @
     [\<lparr>country = ''Peru'', inst_health = 70, inst_attack = 80, emoji_id = None\<rparr>,
      \<lparr>country = ''Chile'', inst_health = 60, inst_attack = 90, emoji_id = None\<rparr>]"

lemmas scenario_defs =
  unit_of_def fainted_unit_def action_of_def fresh_match_def weak_lead_match_def
  last_units_match_def finished_match_def new_BattleInstance_def new_BattleBall_def post_init_def

lemmas run_defs =
  execute_turn_def turn_order_def second_action_def execute_single_action_def
  apply_defend_bonus_def switch_if_dead_def switch_to_next_ball_def
  get_next_alive_ball_index_def get_active_ball_def is_battle_over_def get_winner_def
  MOVES_def execute_def knock_out_def random_random_def random_uniform_def py_int_def Let_def

section \<open>Floats at the values used below\<close>

lemma uniform_at_half:
  "float_add (nearest_double (4 / 5))
     (float_mul (float_sub (nearest_double (6 / 5)) (nearest_double (4 / 5))) (1 / 2)) = 1"
  by code_simp

lemma int_to_float_30: "int_to_float 30 = 30"
  by code_simp

lemma int_to_float_40: "int_to_float 40 = 40"
  by code_simp

lemma int_to_float_50: "int_to_float 50 = 50"
  by code_simp

lemma float_mul_30: "float_mul 30 1 = 30"
  by code_simp

lemma float_mul_40: "float_mul 40 1 = 40"
  by code_simp

lemma float_mul_50: "float_mul 50 1 = 50"
  by code_simp

lemma float_mul_half_40: "float_mul 40 (1 / 2) = 20"
  by code_simp

text \<open>The rounding shows in the damage: with attack 100 and the draw 7/8 a normal attack
  deals 114, and with attack 200 and the draw 1/8 a heavy attack deals 254, where the
  exact products are 115 and 255.\<close>

lemma rounded_damage_normal:
  "py_int (float_mul (int_to_float 100)
     (float_add (nearest_double (4 / 5))
        (float_mul (float_sub (nearest_double (6 / 5)) (nearest_double (4 / 5))) (7 / 8)))) = 114"
  by code_simp

lemma rounded_damage_heavy:
  "py_int (float_mul (int_to_float 200)
     (float_add (nearest_double (6 / 5))
        (float_mul (float_sub (nearest_double (9 / 5)) (nearest_double (6 / 5))) (1 / 8)))) = 254"
  by code_simp

lemmas float_evals =
  uniform_at_half int_to_float_30 int_to_float_40 int_to_float_50
  float_mul_30 float_mul_40 float_mul_50 float_mul_half_40

text \<open>The doubles written \<open>0.1\<close>, \<open>0.3\<close> and \<open>0.5\<close>, and the comparison of a draw
  \<open>n / 2^53\<close> with them.\<close>

lemma double_tenth: "nearest_double (1 / 10) = 3602879701896397 / 36028797018963968"
  by code_simp

lemma double_three_tenths: "nearest_double (3 / 10) = 5404319552844595 / 18014398509481984"
  by code_simp

lemma double_half: "nearest_double (1 / 2) = 1 / 2"
  by code_simp

lemma thresholds_as_doubles:
  "(of_int n / 2 ^ 53 < nearest_double (1 / 10)) = (of_int n / 2 ^ 53 < (1 / 10 :: rat))"
  "(of_int n / 2 ^ 53 < nearest_double (3 / 10)) = (of_int n / 2 ^ 53 < (3 / 10 :: rat))"
  "(of_int n / 2 ^ 53 < nearest_double (1 / 2)) = (of_int n / 2 ^ 53 < (1 / 2 :: rat))"
proof -
  have a: "(of_int n / 2 ^ 53 < (3602879701896397 / 36028797018963968 :: rat))
             = (n * 4 < 3602879701896397)"
    by (simp add: field_simps flip: of_int_less_iff [where 'a = rat])
  have b: "(of_int n / 2 ^ 53 < (1 / 10 :: rat)) = (n * 10 < 9007199254740992)"
    by (simp add: field_simps flip: of_int_less_iff [where 'a = rat])
  have c: "(of_int n / 2 ^ 53 < (5404319552844595 / 18014398509481984 :: rat))
             = (n * 2 < 5404319552844595)"
    by (simp add: field_simps flip: of_int_less_iff [where 'a = rat])
  have d: "(of_int n / 2 ^ 53 < (3 / 10 :: rat)) = (n * 10 < 27021597764222976)"
    by (simp add: field_simps flip: of_int_less_iff [where 'a = rat])
  show "(of_int n / 2 ^ 53 < nearest_double (1 / 10)) = (of_int n / 2 ^ 53 < (1 / 10 :: rat))"
    unfolding double_tenth a b by presburger
  show "(of_int n / 2 ^ 53 < nearest_double (3 / 10)) = (of_int n / 2 ^ 53 < (3 / 10 :: rat))"
    unfolding double_three_tenths c d by presburger
  show "(of_int n / 2 ^ 53 < nearest_double (1 / 2)) = (of_int n / 2 ^ 53 < (1 / 2 :: rat))"
    unfolding double_half ..
qed

section \<open>What one action can change\<close>

lemma is_battle_over_alive: "is_battle_over b = (\<not> (alive P1 b \<and> alive P2 b))"
  by (simp add: is_battle_over_def alive_def)

lemma dead_le_refl: "dead_le xs xs"
  by (simp add: dead_le_def list_all2_same)

lemma dead_le_trans: "dead_le xs ys \<Longrightarrow> dead_le ys zs \<Longrightarrow> dead_le xs zs"
  unfolding dead_le_def list_all2_conv_all_nth by auto

lemma dead_le_update:
  assumes "dead_le xs ys" and "dead (ys ! i) \<longrightarrow> dead y"
  shows "dead_le xs (ys[i := y])"
proof -
  have len: "length xs = length ys"
    and nth: "\<And>k. k < length xs \<Longrightarrow> dead (xs ! k) \<Longrightarrow> dead (ys ! k)"
    using assms(1) by (auto simp: dead_le_def list_all2_conv_all_nth)
  have "dead (ys[i := y] ! k)" if "k < length xs" "dead (xs ! k)" for k
    using that nth[OF that] assms(2) len by (cases "k = i") simp_all
  then show ?thesis
    by (simp add: dead_le_def list_all2_conv_all_nth len)
qed

lemma map_dead_update:
  "dead y = dead (ys ! i) \<Longrightarrow> map dead (ys[i := y]) = map dead ys"
  by (cases "i < length ys") (simp_all add: map_update list_update_same_conv list_update_beyond)

lemma dead_le_alive:
  assumes "dead_le xs ys" and "list_ex (\<lambda>x. \<not> dead x) ys"
  shows "list_ex (\<lambda>x. \<not> dead x) xs"
proof -
  from assms(2) obtain k where "k < length ys" "\<not> dead (ys ! k)"
    by (auto simp: list_ex_iff in_set_conv_nth)
  with assms(1) have "k < length xs" "\<not> dead (xs ! k)"
    by (auto simp: dead_le_def list_all2_conv_all_nth)
  then show ?thesis
    unfolding list_ex_iff using nth_mem by blast
qed

lemma map_dead_alive:
  "map dead xs = map dead ys \<Longrightarrow> list_ex (\<lambda>x. \<not> dead x) xs = list_ex (\<lambda>x. \<not> dead x) ys"
proof -
  assume "map dead xs = map dead ys"
  then have "list_ex (\<lambda>d. \<not> d) (map dead xs) = list_ex (\<lambda>d. \<not> d) (map dead ys)" by simp
  then show ?thesis by (simp add: list_ex_iff)
qed

lemma map_dead_le: "map dead xs = map dead ys \<Longrightarrow> dead_le xs ys"
  unfolding dead_le_def list_all2_conv_all_nth
  by (metis length_map nth_map)

lemma evolves_refl: "evolves d b b"
  by (simp add: evolves_def dead_le_refl)

lemma upd_ball_fields [simp]:
  "p1_name (upd_ball r f b) = p1_name b"
  "p2_name (upd_ball r f b) = p2_name b"
  "winner (upd_ball r f b) = winner b"
  "turn_history (upd_ball r f b) = turn_history b"
  "current_turn (upd_ball r f b) = current_turn b"
  "p1_active_index (upd_ball r f b) = p1_active_index b"
  "p2_active_index (upd_ball r f b) = p2_active_index b"
  by (cases r; cases "fst r"; simp)+

lemma team_upd_ball:
  "team s (upd_ball (s', i) f b) = (if s = s' then (team s b)[i := f (team s b ! i)] else team s b)"
  by (cases s; cases s'; simp)

lemma other_neq [simp]: "other d \<noteq> d" "d \<noteq> other d"
  by (cases d; simp)+

lemma evolves_upd_keep:
  assumes "evolves d b b1" and "\<And>x. dead (f x) = dead x"
  shows "evolves d b (upd_ball r f b1)"
proof -
  obtain s i where r: "r = (s, i)" by (cases r)
  have m: "map dead (team t (upd_ball r f b1)) = map dead (team t b1)" for t
    by (simp add: r team_upd_ball map_dead_update assms(2))
  have l: "length (team t (upd_ball r f b1)) = length (team t b1)" for t
    by (simp add: r team_upd_ball)
  have "dead_le (team d b1) (team d (upd_ball r f b1))"
    by (rule map_dead_le) (simp add: m)
  with assms(1) show ?thesis
    by (auto simp: evolves_def m l intro: dead_le_trans)
qed

lemma evolves_upd_defender:
  assumes "evolves d b b1" and "\<And>x. dead x \<longrightarrow> dead (f x)" and "fst r = d"
  shows "evolves d b (upd_ball r f b1)"
proof -
  obtain i where r: "r = (d, i)" using assms(3) by (cases r) simp
  have "dead_le (team d b1) (team d (upd_ball (d, i) f b1))"
    by (simp add: team_upd_ball dead_le_update dead_le_refl assms(2))
  with assms(1) show ?thesis
    by (auto simp: r evolves_def team_upd_ball intro: dead_le_trans)
qed

lemma evolves_knock_out:
  "evolves d b b1 \<Longrightarrow> fst r = d \<Longrightarrow> evolves d b (knock_out r b1)"
  by (simp add: knock_out_def evolves_upd_defender)

lemma execute_evolves:
  "execute mv att r b g = (res, b', g') \<Longrightarrow> evolves (fst r) b b'"
  by (auto simp: execute_def random_random_def random_uniform_def Let_def
           split: if_splits MoveType.splits prod.splits
           intro!: evolves_knock_out evolves_upd_defender evolves_upd_keep evolves_refl)

lemma evolves_trans:
  "evolves d b b1 \<Longrightarrow> evolves d b1 b2 \<Longrightarrow> evolves d b b2"
  by (auto simp: evolves_def intro: dead_le_trans)

lemma get_active_ball_side:
  "get_active_ball b p = Some r \<Longrightarrow> fst r = side_of b p \<and> snd r < length (team (fst r) b)"
  by (auto simp: get_active_ball_def side_of_def split: if_splits)

lemma next_alive_first:
  assumes "get_next_alive_ball_index b p = Some i"
  shows "(if p = p1_name b then p1_active_index b else p2_active_index b) < i
       \<and> i < length (team (side_of b p) b)
       \<and> \<not> dead (team (side_of b p) b ! i)
       \<and> (\<forall>j. (if p = p1_name b then p1_active_index b else p2_active_index b) < j \<and> j < i
              \<longrightarrow> dead (team (side_of b p) b ! j))"
proof -
  define c where "c = (if p = p1_name b then p1_active_index b else p2_active_index b)"
  define balls where "balls = team (side_of b p) b"
  have f: "find (\<lambda>i. \<not> dead (balls ! i)) [c + 1 ..< length balls] = Some i"
    using assms
    by (auto simp: get_next_alive_ball_index_def c_def balls_def side_of_def Let_def
             split: if_splits)
  then obtain k where k: "k < length [c + 1 ..< length balls]"
      "\<not> dead (balls ! ([c + 1 ..< length balls] ! k))" "i = [c + 1 ..< length balls] ! k"
      "\<forall>j<k. dead (balls ! ([c + 1 ..< length balls] ! j))"
    unfolding find_Some_iff by auto
  have i: "i = c + 1 + k" using k(1,3) by simp
  have "dead (balls ! j)" if "c < j" "j < i" for j
  proof -
    have "j - (c + 1) < k" using that i by arith
    with k(4) have "dead (balls ! ([c + 1 ..< length balls] ! (j - (c + 1))))" by blast
    moreover have "[c + 1 ..< length balls] ! (j - (c + 1)) = j"
      using that i k(1) by simp
    ultimately show ?thesis by simp
  qed
  with k i show ?thesis unfolding c_def[symmetric] balls_def[symmetric] by auto
qed

lemma switch_evolves:
  assumes "switch_to_next_ball b p = (sw, b')"
  shows "evolves d b b'"
proof -
  from assms have t: "team s b' = team s b" for s
    by (cases s) (auto simp: switch_to_next_ball_def split: option.splits if_splits)
  from assms have "p1_name b' = p1_name b" "p2_name b' = p2_name b" "winner b' = winner b"
      "turn_history b' = turn_history b" "current_turn b' = current_turn b"
    by (auto simp: switch_to_next_ball_def split: option.splits if_splits)
  then show ?thesis by (simp add: evolves_def t dead_le_refl)
qed

lemma switch_active:
  assumes "switch_to_next_ball b p = (True, b')"
  shows "get_active_ball b' p \<noteq> None"
proof -
  from assms obtain i where i: "get_next_alive_ball_index b p = Some i"
    and b': "b' = (if p = p1_name b then b\<lparr>p1_active_index := i\<rparr>
                   else b\<lparr>p2_active_index := i\<rparr>)"
    by (auto simp: switch_to_next_ball_def split: option.splits)
  from next_alive_first[OF i] have "i < length (team (side_of b p) b)" by simp
  then show ?thesis by (cases "p = p1_name b") (simp_all add: b' get_active_ball_def side_of_def)
qed

lemma bonus_evolves:
  assumes "apply_defend_bonus mv att dfn b g = (res, b', g')"
  shows "evolves (fst dfn) b b'"
proof -
  obtain r1 b1 g1 where ex: "execute mv att dfn b g = (r1, b1, g1)"
    by (cases "execute mv att dfn b g")
  have e1: "evolves (fst dfn) b b1" by (rule execute_evolves[OF ex])
  from assms e1 show ?thesis
    unfolding apply_defend_bonus_def ex
    by (auto simp: Let_def split: if_splits intro!: evolves_upd_defender)
qed

lemma switch_if_dead_evolves:
  "\<exists>ev b' g'. switch_if_dead p dfn res b g = Inr (ev, b', g') \<and> evolves d b b'"
proof (cases "dead (get_ball b dfn)")
  case False
  then show ?thesis by (simp add: switch_if_dead_def evolves_refl)
next
  case True
  let ?opp = "if p = p1_name b then p2_name b else p1_name b"
  obtain sw b1 where sw: "switch_to_next_ball b ?opp = (sw, b1)"
    by (cases "switch_to_next_ball b ?opp")
  have e: "evolves d b b1" by (rule switch_evolves[OF sw])
  show ?thesis
  proof (cases sw)
    case False
    with True sw e show ?thesis by (simp add: switch_if_dead_def Let_def)
  next
    case sw_true: True
    with sw have "get_active_ball b1 ?opp \<noteq> None" by (simp add: switch_active)
    then obtain nb where "get_active_ball b1 ?opp = Some nb" by blast
    with True sw sw_true e show ?thesis by (simp add: switch_if_dead_def Let_def)
  qed
qed

lemma esa_total_evolves:
  "\<exists>ev b' g'. execute_single_action b p action g = Inr (ev, b', g')
      \<and> evolves (side_of b (opponent_of b p)) b b'"
proof (cases "get_active_ball b p")
  case None
  then show ?thesis by (simp add: execute_single_action_def evolves_refl)
next
  case att: (Some att)
  show ?thesis
  proof (cases "get_active_ball b (opponent_of b p)")
    case None
    with att show ?thesis
      by (simp add: execute_single_action_def opponent_of_def evolves_refl)
  next
    case dfn: (Some dfn)
    have fd: "fst dfn = side_of b (opponent_of b p)"
      using get_active_ball_side[OF dfn] by simp
    show ?thesis
    proof (cases "MOVES (move action)")
      case None
      with att dfn show ?thesis
        by (simp add: execute_single_action_def opponent_of_def evolves_refl)
    next
      case mv: (Some mv)
      obtain res b1 g1 where bo: "apply_defend_bonus mv att dfn b g = (res, b1, g1)"
        by (cases "apply_defend_bonus mv att dfn b g")
      have e1: "evolves (side_of b (opponent_of b p)) b b1"
        using bonus_evolves[OF bo] fd by simp
      obtain ev b2 g2 where sd: "switch_if_dead p dfn res b1 g1 = Inr (ev, b2, g2)"
        and e2: "evolves (side_of b (opponent_of b p)) b1 b2"
        using switch_if_dead_evolves by blast
      have "execute_single_action b p action g = Inr (ev, b2, g2)"
        using att dfn mv bo sd by (simp add: execute_single_action_def opponent_of_def)
      with evolves_trans[OF e1 e2] show ?thesis by blast
    qed
  qed
qed

subsection \<open>The course of a round\<close>

lemma evolves_alive_other:
  assumes "evolves d b b'"
  shows "alive (other d) b' = alive (other d) b"
proof -
  from assms have "map dead (team (other d) b') = map dead (team (other d) b)"
    by (simp add: evolves_def)
  then show ?thesis unfolding alive_def by (rule map_dead_alive)
qed

lemma evolves_alive_le:
  assumes "evolves d b b'" and "alive s b'"
  shows "alive s b"
proof (cases "s = d")
  case True
  from assms(1) have "dead_le (team d b) (team d b')" by (simp add: evolves_def)
  from dead_le_alive[OF this] assms(2) True show ?thesis by (simp add: alive_def)
next
  case False
  then have s: "s = other d" by (cases s; cases d) simp_all
  with assms(2) evolves_alive_other[OF assms(1)] show ?thesis by simp
qed

lemma evolves_over:
  assumes "evolves d b b'" and "is_battle_over b"
  shows "is_battle_over b'"
proof -
  have "alive s b' \<Longrightarrow> alive s b" for s by (rule evolves_alive_le[OF assms(1)])
  with assms(2) show ?thesis unfolding is_battle_over_alive by blast
qed

lemma get_winner_alive:
  "get_winner b = (if \<not> alive P1 b \<and> \<not> alive P2 b then Some ''Draw''
                   else if \<not> alive P1 b then Some (p2_name b)
                   else if \<not> alive P2 b then Some (p1_name b) else None)"
  by (simp add: get_winner_def alive_def)

lemma alive_fields [simp]:
  "alive s (b\<lparr>current_turn := t\<rparr>) = alive s b"
  "alive s (b\<lparr>winner := w\<rparr>) = alive s b"
  "alive s (b\<lparr>turn_history := h\<rparr>) = alive s b"
  by (cases s; simp add: alive_def)+

lemma get_ball_current_turn [simp]:
  "get_ball (b\<lparr>current_turn := t\<rparr>) r = get_ball b r"
  by (cases r; cases "fst r"; simp)

lemma turn_order_current_turn:
  "turn_order (b\<lparr>current_turn := t\<rparr>) r1 r2 a1 a2 g = turn_order b r1 r2 a1 a2 g"
  by (simp add: turn_order_def random_random_def)

lemma turn_order_names:
  "turn_order b r1 r2 a1 a2 g = (first, second, g0) \<Longrightarrow>
     fst first = p1_name b \<and> fst second = p2_name b \<or>
     fst first = p2_name b \<and> fst second = p1_name b"
  by (auto simp: turn_order_def random_random_def split: if_splits)

lemma evolves_winner_of_actor:
  assumes ev: "evolves (side_of b (opponent_of b q)) b b1"
    and q: "q = p1_name b \<or> q = p2_name b"
    and live: "\<not> is_battle_over b" and over: "is_battle_over b1"
  shows "get_winner b1 = Some q"
proof -
  let ?d = "side_of b (opponent_of b q)"
  have names: "p1_name b1 = p1_name b" "p2_name b1 = p2_name b"
    using ev by (simp_all add: evolves_def)
  have o: "alive (other ?d) b1" using evolves_alive_other[OF ev] live
    by (cases ?d) (simp_all add: is_battle_over_alive)
  from o over have d: "\<not> alive ?d b1"
    by (cases ?d) (auto simp: is_battle_over_alive)
  show ?thesis
  proof (cases ?d)
    case P1
    have "q = p2_name b"
    proof (cases "q = p1_name b")
      case True
      with P1 have "p2_name b = p1_name b"
        by (simp add: side_of_def opponent_of_def split: if_splits)
      with True show ?thesis by simp
    next
      case False
      with q show ?thesis by simp
    qed
    moreover from P1 o d have "get_winner b1 = Some (p2_name b)"
      by (simp add: get_winner_alive names)
    ultimately show ?thesis by (simp only:)
  next
    case P2
    have "q = p1_name b"
    proof (rule ccontr)
      assume "q \<noteq> p1_name b"
      then have "side_of b (opponent_of b q) = P1" by (simp add: side_of_def opponent_of_def)
      with P2 show False by simp
    qed
    moreover from P2 o d have "get_winner b1 = Some (p1_name b)"
      by (simp add: get_winner_alive names)
    ultimately show ?thesis by (simp only:)
  qed
qed

lemma side_opponent_names:
  "p1_name b' = p1_name b \<Longrightarrow> p2_name b' = p2_name b \<Longrightarrow>
     side_of b' (opponent_of b' p) = side_of b (opponent_of b p)"
  by (simp add: side_of_def opponent_of_def)

lemma execute_turn_shape:
  assumes r1: "get_active_ball b (p1_name b) = Some r1"
    and r2: "get_active_ball b (p2_name b) = Some r2"
  obtains (ended) first second g0 e1 b1 g1 where
      "turn_order b r1 r2 a1 a2 g = (first, second, g0)"
      "evolves (side_of b (opponent_of b (fst first))) (b\<lparr>current_turn := current_turn b + 1\<rparr>) b1"
      "is_battle_over b1"
      "execute_turn b a1 a2 g =
         Inr (\<lparr>turn = current_turn b + 1, events = [e1], p1_active = Some r1,
               p2_active = Some r2\<rparr>, b1\<lparr>winner := get_winner b1\<rparr>, g1)"
  | (continued) first second g0 e1 b1 g1 rec2 b2 g2 where
      "turn_order b r1 r2 a1 a2 g = (first, second, g0)"
      "evolves (side_of b (opponent_of b (fst first))) (b\<lparr>current_turn := current_turn b + 1\<rparr>) b1"
      "\<not> is_battle_over b1"
      "evolves (side_of b (opponent_of b (fst second))) b1 b2"
      "events rec2 = [e1] \<and> b2 = b1 \<or> (\<exists>e2. events rec2 = [e1, e2])"
      "execute_turn b a1 a2 g =
         Inr (rec2, (if is_battle_over b2 then b2\<lparr>winner := get_winner b2\<rparr> else b2)
                      \<lparr>turn_history := turn_history b2 @ [rec2]\<rparr>, g2)"
proof -
  define b0 where "b0 = b\<lparr>current_turn := current_turn b + 1\<rparr>"
  have act0: "get_active_ball b0 p = get_active_ball b p" for p
    by (simp add: b0_def get_active_ball_def)
  have nm0: "p1_name b0 = p1_name b" "p2_name b0 = p2_name b" "current_turn b0 = current_turn b + 1"
    by (simp_all add: b0_def)
  obtain first second g0 where ord: "turn_order b r1 r2 a1 a2 g = (first, second, g0)"
    by (cases "turn_order b r1 r2 a1 a2 g")
  have ord0: "turn_order b0 r1 r2 a1 a2 g = (first, second, g0)"
    using ord by (simp add: b0_def turn_order_current_turn)
  let ?rec0 = "\<lparr>turn = current_turn b + 1, events = [], p1_active = Some r1, p2_active = Some r2\<rparr>"
  let ?rec1 = "\<lparr>turn = current_turn b + 1, events = [e1], p1_active = Some r1, p2_active = Some r2\<rparr>"
  let ?d1 = "side_of b (opponent_of b (fst first))"
  let ?d2 = "side_of b (opponent_of b (fst second))"
  obtain e1 b1 g1 where esa1: "execute_single_action b0 (fst first) (snd first) g0 = Inr (e1, b1, g1)"
    and ev1: "evolves (side_of b0 (opponent_of b0 (fst first))) b0 b1"
    using esa_total_evolves by blast
  have "side_of b0 (opponent_of b0 (fst first)) = ?d1"
    by (rule side_opponent_names) (simp_all add: nm0)
  with ev1 have ev1': "evolves ?d1 (b\<lparr>current_turn := current_turn b + 1\<rparr>) b1"
    by (simp add: b0_def)
  have nm1: "p1_name b1 = p1_name b" "p2_name b1 = p2_name b"
    using ev1 nm0 by (simp_all add: evolves_def)
  let ?rec1 = "\<lparr>turn = current_turn b + 1, events = [e1], p1_active = Some r1, p2_active = Some r2\<rparr>"
  have start: "execute_turn b a1 a2 g =
      (if is_battle_over b1 then Inr (?rec1, b1\<lparr>winner := get_winner b1\<rparr>, g1)
       else second_action b1 second ?rec1 g1)"
    unfolding execute_turn_def b0_def[symmetric] Let_def
    by (simp add: act0 nm0 r1 r2 ord0 esa1)
  show thesis
  proof (cases "is_battle_over b1")
    case True
    with start have "execute_turn b a1 a2 g = Inr (?rec1, b1\<lparr>winner := get_winner b1\<rparr>, g1)"
      by simp
    with ord ev1' True show thesis by (rule ended)
  next
    case False
    with start have st2: "execute_turn b a1 a2 g = second_action b1 second ?rec1 g1" by simp
    show thesis
    proof (cases "\<exists>sb. get_active_ball b1 (fst second) = Some sb \<and> \<not> dead (get_ball b1 sb)")
      case True
      then obtain sb where sb: "get_active_ball b1 (fst second) = Some sb" "\<not> dead (get_ball b1 sb)"
        by blast
      obtain e2 b2 g2 where
        esa2: "execute_single_action b1 (fst second) (snd second) g1 = Inr (e2, b2, g2)"
        and ev2: "evolves (side_of b1 (opponent_of b1 (fst second))) b1 b2"
        using esa_total_evolves by blast
      have "side_of b1 (opponent_of b1 (fst second)) = ?d2"
        by (rule side_opponent_names) (simp_all add: nm1)
      with ev2 have ev2': "evolves ?d2 b1 b2" by simp
      let ?rec2 = "\<lparr>turn = current_turn b + 1, events = [e1, e2], p1_active = Some r1,
                     p2_active = Some r2\<rparr>"
      have run: "execute_turn b a1 a2 g =
          Inr (?rec2, (if is_battle_over b2 then b2\<lparr>winner := get_winner b2\<rparr> else b2)
                 \<lparr>turn_history := turn_history b2 @ [?rec2]\<rparr>, g2)"
        unfolding st2 by (simp add: second_action_def sb esa2 Let_def)
      have ev: "events ?rec2 = [e1] \<and> b2 = b1 \<or> (\<exists>e2'. events ?rec2 = [e1, e2'])" by simp
      from ord ev1' False ev2' ev run show thesis by (rule continued)
    next
      case skip: False
      have run: "execute_turn b a1 a2 g =
          Inr (?rec1, (if is_battle_over b1 then b1\<lparr>winner := get_winner b1\<rparr> else b1)
                 \<lparr>turn_history := turn_history b1 @ [?rec1]\<rparr>, g1)"
        unfolding st2 using skip
        by (cases "get_active_ball b1 (fst second)") (simp_all add: second_action_def Let_def)
      have ev: "events ?rec1 = [e1] \<and> b1 = b1 \<or> (\<exists>e2'. events ?rec1 = [e1, e2'])" by simp
      from ord ev1' False evolves_refl ev run show thesis by (rule continued)
    qed
  qed
qed

lemma is_battle_over_fields [simp]:
  "is_battle_over (b\<lparr>current_turn := t\<rparr>) = is_battle_over b"
  "is_battle_over (b\<lparr>winner := w\<rparr>) = is_battle_over b"
  "is_battle_over (b\<lparr>turn_history := h\<rparr>) = is_battle_over b"
  by (simp_all add: is_battle_over_def)

lemma get_winner_fields [simp]:
  "get_winner (b\<lparr>current_turn := t\<rparr>) = get_winner b"
  "get_winner (b\<lparr>winner := w\<rparr>) = get_winner b"
  "get_winner (b\<lparr>turn_history := h\<rparr>) = get_winner b"
  by (simp_all add: get_winner_def Let_def)

lemma execute_turn_no_active:
  assumes "get_active_ball b (p1_name b) = None \<or> get_active_ball b (p2_name b) = None"
  shows "execute_turn b a1 a2 g =
     Inr (\<lparr>turn = current_turn b + 1, events = [],
           p1_active = get_active_ball b (p1_name b),
           p2_active = get_active_ball b (p2_name b)\<rparr>,
          b\<lparr>current_turn := current_turn b + 1\<rparr>, g)"
proof -
  have act0: "get_active_ball (b\<lparr>current_turn := current_turn b + 1\<rparr>) p = get_active_ball b p"
    for p by (simp add: get_active_ball_def)
  from assms show ?thesis
    unfolding execute_turn_def Let_def
    by (cases "get_active_ball b (p1_name b)") (auto simp: act0)
qed

section \<open>Properties\<close>

subsection \<open>Units constructed by \<open>BattleBall\<close>\<close>

text \<open>
  C10. A \<open>BattleBall\<close> constructed with \<open>max_health\<close> omitted or equal to 0 gets its
  \<open>max_health\<close> from its initial health in \<open>__post_init__\<close>, so that the fresh unit
  has \<open>health == max_health\<close>.
\<close>

theorem post_init_max_health:
  "mh = None \<or> mh = Some 0 \<Longrightarrow>
     max_health (new_BattleBall n ow h a mh e d df) = h \<and>
     health (new_BattleBall n ow h a mh e d df) = max_health (new_BattleBall n ow h a mh e d df)"
  by (auto simp: new_BattleBall_def post_init_def)

theorem post_init_max_health_witness:
  "max_health (new_BattleBall ''A1'' ''alice'' 100 50 None None None None) = 100 \<and>
   health (new_BattleBall ''A1'' ''alice'' 100 50 None None None None)
     = max_health (new_BattleBall ''A1'' ''alice'' 100 50 None None None None)"
  using post_init_max_health [of None "''A1''" "''alice''" 100 50 None None None] by simp

subsection \<open>The end of a match\<close>

text \<open>
  C9. \<open>is_battle_over()\<close> is true if and only if \<open>get_winner()\<close> is not \<open>None\<close>; a
  winner is a player's name or "Draw"; a match in which both teams still hold a living unit
  has no winner and is not over.
\<close>

theorem is_battle_over_iff_winner:
  "(is_battle_over b \<longleftrightarrow> get_winner b \<noteq> None) \<and>
   get_winner b \<in> {None, Some ''Draw'', Some (p1_name b), Some (p2_name b)} \<and>
   (list_ex (\<lambda>ball. \<not> dead ball) (p1_balls b) \<and> list_ex (\<lambda>ball. \<not> dead ball) (p2_balls b)
      \<longrightarrow> get_winner b = None \<and> \<not> is_battle_over b)"
  by (auto simp: is_battle_over_def get_winner_def Let_def)

theorem is_battle_over_iff_winner_witness:
  "list_ex (\<lambda>ball. \<not> dead ball) (p1_balls (fresh_match 100)) \<and>
   list_ex (\<lambda>ball. \<not> dead ball) (p2_balls (fresh_match 100)) \<and>
   get_winner (fresh_match 100) = None \<and> \<not> is_battle_over (fresh_match 100)"
  using is_battle_over_iff_winner [of "fresh_match 100"] by (simp add: scenario_defs)

subsection \<open>The creation of a match\<close>

text \<open>
  C6, as the code has it. \<open>create_battle_from_instances\<close> returns a match exactly when each
  of the two lists holds exactly 5 instances; when either list has another length it raises
  the \<open>ValueError\<close> "Each player must have exactly 5 balls!" and no match is created.
\<close>

theorem create_battle_needs_five:
  "((\<exists>b. create_battle_from_instances n1 n2 xs ys = Inr b) \<longleftrightarrow> length xs = 5 \<and> length ys = 5) \<and>
   (create_battle_from_instances n1 n2 xs ys = Inl (ValueError ''Each player must have exactly 5 balls!'')
      \<longleftrightarrow> length xs \<noteq> 5 \<or> length ys \<noteq> 5)"
  by (simp add: create_battle_from_instances_def)

theorem create_battle_needs_five_witness:
  "\<exists>b. create_battle_from_instances ''alice'' ''bob'' five_instances five_instances = Inr b"
  using create_battle_needs_five [of "''alice''" "''bob''" five_instances five_instances]
  by (simp add: five_instances_def three_instances_def)

text \<open>Two teams of exactly three units are refused.\<close>

theorem create_battle_three_counterexample:
  "create_battle_from_instances ''alice'' ''bob'' three_instances three_instances
     = Inl (ValueError ''Each player must have exactly 5 balls!'')"
  by (simp add: create_battle_from_instances_def three_instances_def)

subsection \<open>The miss rolls of \<open>BattleMove.execute\<close>\<close>

text \<open>
  C8. Every execution of a move first takes one draw and compares it with 0.1, whatever the
  kind of the move. On a miss the result is a miss event, no unit is changed, and nothing
  else is drawn. A heavy attack takes a second draw, compared with 0.3, only when the first
  roll did not miss; on that miss, too, no unit is changed. The other kinds cannot miss once
  the first roll has passed.
\<close>

theorem execute_miss_rolls:
  "(shd g < 1 / 10 \<longrightarrow>
      execute mv att dfn b g =
        (\<lparr>success = False, damage = 0, heal = 0, message = [Missed (name (get_ball b att))],
          crit = False, miss = True\<rparr>, b, stl g)) \<and>
   (\<not> shd g < 1 / 10 \<and> move_type mv = HEAVY_ATTACK \<and> shd (stl g) < 3 / 10 \<longrightarrow>
      execute mv att dfn b g =
        (\<lparr>success = False, damage = 0, heal = 0, message = [HeavyMissed (name (get_ball b att))],
          crit = False, miss = True\<rparr>, b, stl (stl g))) \<and>
   (\<not> shd g < 1 / 10 \<and> move_type mv = HEAVY_ATTACK \<and> \<not> shd (stl g) < 3 / 10 \<longrightarrow>
      \<not> miss (fst (execute mv att dfn b g)) \<and> success (fst (execute mv att dfn b g)) \<and>
      snd (snd (execute mv att dfn b g)) = stl (stl (stl g))) \<and>
   (\<not> shd g < 1 / 10 \<and> move_type mv \<noteq> HEAVY_ATTACK \<longrightarrow>
      \<not> miss (fst (execute mv att dfn b g)) \<and> success (fst (execute mv att dfn b g)))"
  by (cases "move_type mv")
     (simp_all add: execute_def random_random_def random_uniform_def Let_def split_def)

theorem execute_miss_rolls_witness:
  "execute \<lparr>move_name = ''Recover'', move_type = HEAL, description = ''Restore some HP'',
            move_emoji = ''green_heart''\<rparr> (P1, 0) (P2, 0) (fresh_match 100) (sconst (1 / 20))
     = (\<lparr>success = False, damage = 0, heal = 0, message = [Missed ''A1''],
         crit = False, miss = True\<rparr>, fresh_match 100, sconst (1 / 20)) \<and>
   execute \<lparr>move_name = ''Heavy Strike'', move_type = HEAVY_ATTACK,
            description = ''Powerful but risky'', move_emoji = ''muscle''\<rparr>
        (P1, 0) (P2, 0) (fresh_match 100) (1 / 2 ## sconst (1 / 5))
     = (\<lparr>success = False, damage = 0, heal = 0, message = [HeavyMissed ''A1''],
         crit = False, miss = True\<rparr>, fresh_match 100, sconst (1 / 5))"
  using execute_miss_rolls [of "sconst (1 / 20)"
          "\<lparr>move_name = ''Recover'', move_type = HEAL, description = ''Restore some HP'',
            move_emoji = ''green_heart''\<rparr>" "(P1, 0)" "(P2, 0)" "fresh_match 100"]
        execute_miss_rolls [of "1 / 2 ## sconst (1 / 5)"
          "\<lparr>move_name = ''Heavy Strike'', move_type = HEAVY_ATTACK,
            description = ''Powerful but risky'', move_emoji = ''muscle''\<rparr>"
          "(P1, 0)" "(P2, 0)" "fresh_match 100"]
  by (simp add: scenario_defs)

subsection \<open>The health invariant\<close>

text \<open>
  C1. Every unit keeps \<open>0 \<le> health \<le> max_health\<close> and is dead exactly when its health
  is 0, through every operation that changes units. The code breaks this when a defending
  unit is knocked out: \<open>execute\<close> subtracts the full damage, clamps the health to 0 and
  marks the unit dead, and \<open>_execute_single_action\<close> then gives the reduced half of the
  damage back. In a fresh match whose units all satisfy the invariant, alice's first unit
  (10 health points, attack 50) defends and bob's first unit (attack 40) attacks, with no
  miss, multiplier 1.0 and no critical hit: the unit ends dead with 20 health points,
  above its \<open>max_health\<close> of 10.
\<close>

theorem defend_knock_out_breaks_invariant:
  "list_all health_invariant (p1_balls (fresh_match 10)) \<and>
   list_all health_invariant (p2_balls (fresh_match 10)) \<and>
   (case execute_turn (fresh_match 10) (action_of ''alice'' ''defend'')
           (action_of ''bob'' ''attack'') (sconst (1 / 2)) of
      Inl e \<Rightarrow> False
    | Inr (rec, b', g') \<Rightarrow>
        dead (p1_balls b' ! 0) \<and> health (p1_balls b' ! 0) = 20 \<and>
        max_health (p1_balls b' ! 0) = 10 \<and> \<not> health_invariant (p1_balls b' ! 0))"
  by (simp add: scenario_defs run_defs float_evals health_invariant_def)

subsection \<open>The defend bonus\<close>

text \<open>
  C7. Against a defending target the rolled damage of an attack is halved before it is
  subtracted. The code subtracts the full damage first: alice's first unit has 30 health
  points and defends, bob's unit attacks with attack 40 and multiplier 1.0. The event
  reports the halved damage 20, yet the unit loses 10 health points, not 20, and is knocked
  out, although 30 - 20 leaves it standing.
\<close>

theorem defend_halving_fails_on_knock_out:
  "health (p1_balls (fresh_match 30) ! 0) = 30 \<and>
   (case execute_turn (fresh_match 30) (action_of ''alice'' ''defend'')
           (action_of ''bob'' ''attack'') (sconst (1 / 2)) of
      Inl e \<Rightarrow> False
    | Inr (rec, b', g') \<Rightarrow>
        events rec ! 1 = MoveEvent \<lparr>success = True, damage = 20, heal = 0,
           message = [Dealt ''B1'' 40 ''A1'', ReducedByDefend, KnockedOut ''A1'', Enters ''A2''],
           crit = False, miss = False\<rparr> \<and>
        health (p1_balls b' ! 0) = 20 \<and> dead (p1_balls b' ! 0) \<and> p1_active_index b' = 1)"
  by (simp add: scenario_defs run_defs float_evals)

subsection \<open>The switch after a knock-out\<close>

text \<open>
  C2. The unit that enters after a knock-out does not act in the round it entered. In the
  code it does: alice's first action knocks out bob's first unit (10 health points), bob's
  second unit B2 (attack 30) enters, and the second action of the same round is carried out
  by B2, which takes 30 health points from alice's unit.
\<close>

theorem entering_unit_acts_in_same_round:
  "(case execute_turn weak_lead_match (action_of ''alice'' ''attack'')
           (action_of ''bob'' ''attack'') (sconst (1 / 2)) of
      Inl e \<Rightarrow> False
    | Inr (rec, b', g') \<Rightarrow>
        p2_active rec = Some (P2, 0) \<and> p2_active_index b' = 1 \<and>
        events rec =
          [MoveEvent \<lparr>success = True, damage = 50, heal = 0,
             message = [Dealt ''A1'' 50 ''B1'', KnockedOut ''B1'', Enters ''B2''],
             crit = False, miss = False\<rparr>,
           MoveEvent \<lparr>success = True, damage = 30, heal = 0,
             message = [Dealt ''B2'' 30 ''A1''], crit = False, miss = False\<rparr>] \<and>
        health (p1_balls b' ! 0) = 70)"
  by (simp add: scenario_defs run_defs float_evals)

subsection \<open>The turn history\<close>

text \<open>
  C5. Every resolved round is appended to the turn history, also a round whose first
  action ends the match. The code returns from that round before the append: with each side
  down to its last unit, alice's attack ends the match in round 8, the round is counted and
  the winner is set, and the history is still empty.
\<close>

theorem history_skipped_when_first_action_ends_match:
  "\<not> is_battle_over last_units_match \<and> current_turn last_units_match = 7 \<and>
   turn_history last_units_match = [] \<and>
   (case execute_turn last_units_match (action_of ''alice'' ''attack'')
           (action_of ''bob'' ''attack'') (sconst (1 / 2)) of
      Inl e \<Rightarrow> False
    | Inr (rec, b', g') \<Rightarrow>
        turn rec = 8 \<and> length (events rec) = 1 \<and> current_turn b' = 8 \<and>
        is_battle_over b' \<and> winner b' = Some ''alice'' \<and> turn_history b' = [])"
  by (simp add: scenario_defs run_defs float_evals)

subsection \<open>The winner and rounds after the end\<close>

text \<open>
  C3, as the code has it. When both sides have an active unit (each active index lies
  within its team), \<open>execute_turn\<close> writes \<open>winner\<close> exactly in a round after which the
  match is over, and then to \<open>get_winner()\<close> of the state reached; a round after which the
  match is not over leaves \<open>winner\<close> as it was. There is no guard against a match that is
  already over: under the same condition \<open>execute_turn\<close> does not fail there. It counts the
  round, resolves the first action only, leaves the match over and assigns \<open>winner\<close>
  again, so that the outcome can change.
\<close>

theorem winner_assignment:
  assumes r1: "get_active_ball b (p1_name b) = Some r1"
    and r2: "get_active_ball b (p2_name b) = Some r2"
  shows "\<exists>rec b' g'. execute_turn b a1 a2 g = Inr (rec, b', g') \<and>
     current_turn b' = current_turn b + 1 \<and>
     (if is_battle_over b' then winner b' = get_winner b' else winner b' = winner b) \<and>
     (is_battle_over b \<longrightarrow> is_battle_over b' \<and> length (events rec) = 1)"
proof -
  let ?b0 = "b\<lparr>current_turn := current_turn b + 1\<rparr>"
  show ?thesis
  proof (rule execute_turn_shape[OF r1 r2, where ?a1.0 = a1 and ?a2.0 = a2 and g = g])
    fix first second g0 e1 b1 g1
    assume ended:
      "turn_order b r1 r2 a1 a2 g = (first, second, g0)"
      "evolves (side_of b (opponent_of b (fst first))) (b\<lparr>current_turn := current_turn b + 1\<rparr>) b1"
      "is_battle_over b1"
      "execute_turn b a1 a2 g =
         Inr (\<lparr>turn = current_turn b + 1, events = [e1], p1_active = Some r1,
               p2_active = Some r2\<rparr>, b1\<lparr>winner := get_winner b1\<rparr>, g1)"
    from ended(2) have "current_turn b1 = current_turn b + 1"
      by (simp add: evolves_def)
    with ended(3,4) show ?thesis by simp
  next
    fix first second g0 e1 b1 g1 rec2 b2 g2
    assume continued:
      "turn_order b r1 r2 a1 a2 g = (first, second, g0)"
      "evolves (side_of b (opponent_of b (fst first))) (b\<lparr>current_turn := current_turn b + 1\<rparr>) b1"
      "\<not> is_battle_over b1"
      "evolves (side_of b (opponent_of b (fst second))) b1 b2"
      "events rec2 = [e1] \<and> b2 = b1 \<or> (\<exists>e2. events rec2 = [e1, e2])"
      "execute_turn b a1 a2 g =
         Inr (rec2, (if is_battle_over b2 then b2\<lparr>winner := get_winner b2\<rparr> else b2)
                      \<lparr>turn_history := turn_history b2 @ [rec2]\<rparr>, g2)"
    from continued(2) have f1: "current_turn b1 = current_turn b + 1" "winner b1 = winner b"
      by (simp_all add: evolves_def)
    from continued(4) have f2: "current_turn b2 = current_turn b1" "winner b2 = winner b1"
      by (simp_all add: evolves_def)
    have "\<not> is_battle_over b"
    proof
      assume "is_battle_over b"
      then have "is_battle_over ?b0" by simp
      from evolves_over[OF continued(2) this] continued(3) show False by simp
    qed
    with continued(6) f1 f2 show ?thesis by simp
  qed
qed

theorem winner_assignment_witness:
  "is_battle_over finished_match \<and>
   (\<exists>rec b' g'.
      execute_turn finished_match (action_of ''alice'' ''attack'') (action_of ''bob'' ''attack'')
        (sconst (1 / 2)) = Inr (rec, b', g') \<and>
      current_turn b' = current_turn finished_match + 1 \<and>
      is_battle_over b' \<and> winner b' = get_winner b' \<and> length (events rec) = 1)"
proof -
  have 1: "get_active_ball finished_match (p1_name finished_match) = Some (P1, 2)"
    by (simp add: scenario_defs get_active_ball_def)
  have 2: "get_active_ball finished_match (p2_name finished_match) = Some (P2, 2)"
    by (simp add: scenario_defs get_active_ball_def)
  have 3: "is_battle_over finished_match"
    by (simp add: scenario_defs is_battle_over_def)
  from winner_assignment [OF 1 2, of "action_of ''alice'' ''attack''"
      "action_of ''bob'' ''attack''" "sconst (1 / 2)"] 3
  show ?thesis by (auto split: if_splits)
qed

text \<open>On a match that bob has won, a further round is resolved without any failure, and
  the winner changes from bob to "Draw".\<close>

theorem round_after_match_over_counterexample:
  "is_battle_over finished_match \<and> winner finished_match = Some ''bob'' \<and>
   get_winner finished_match = Some ''bob'' \<and>
   (case execute_turn finished_match (action_of ''alice'' ''attack'')
           (action_of ''bob'' ''attack'') (sconst (1 / 2)) of
      Inl e \<Rightarrow> False
    | Inr (rec, b', g') \<Rightarrow>
        events rec = [MoveEvent \<lparr>success = True, damage = 50, heal = 0,
             message = [Dealt ''A3'' 50 ''B3'', KnockedOut ''B3''],
             crit = False, miss = False\<rparr>] \<and>
        current_turn b' = 9 \<and> winner b' = Some ''Draw'')"
  by (simp add: scenario_defs run_defs float_evals)

subsection \<open>The outcome of a round\<close>

text \<open>
  C4, as the code has it. A round of a match that is not over never produces a draw: after
  it at least one team has a living unit, and \<open>get_winner()\<close> is \<open>None\<close> or the name of a
  player. If the first action leaves a team with no living unit, the round stops with one
  event and the first actor wins, the second action not being resolved; if the match is
  over after the second action, the second actor wins. \<open>get_winner()\<close> returns "Draw" only
  in a state in which both teams have no living unit, which no round of a running match
  reaches.
\<close>

theorem draw_not_reachable:
  assumes live: "\<not> is_battle_over b"
  shows "\<exists>rec b' g'. execute_turn b a1 a2 g = Inr (rec, b', g') \<and>
     (alive P1 b' \<or> alive P2 b') \<and>
     get_winner b' \<in> {None, Some (p1_name b), Some (p2_name b)} \<and>
     (\<forall>r1 r2 first second g0.
        get_active_ball b (p1_name b) = Some r1 \<longrightarrow> get_active_ball b (p2_name b) = Some r2 \<longrightarrow>
        turn_order b r1 r2 a1 a2 g = (first, second, g0) \<longrightarrow> is_battle_over b' \<longrightarrow>
          length (events rec) = 1 \<and> winner b' = Some (fst first) \<or>
          length (events rec) = 2 \<and> winner b' = Some (fst second))"
proof (cases "get_active_ball b (p1_name b) = None \<or> get_active_ball b (p2_name b) = None")
  case True
  have "get_winner b = None" using live by (auto simp: is_battle_over_def get_winner_def Let_def)
  with execute_turn_no_active[OF True, of a1 a2 g] live show ?thesis
    by (auto simp: is_battle_over_alive)
next
  case False
  then obtain r1 r2 where r1: "get_active_ball b (p1_name b) = Some r1"
    and r2: "get_active_ball b (p2_name b) = Some r2" by auto
  let ?b0 = "b\<lparr>current_turn := current_turn b + 1\<rparr>"
  have live0: "\<not> is_battle_over ?b0" using live by simp
  have two: "alive P1 b' \<or> alive P2 b'" if "evolves d c b'" "\<not> is_battle_over c" for d c b'
    using evolves_alive_other[OF that(1)] that(2) by (cases d) (auto simp: is_battle_over_alive)
  have won: "get_winner b' = Some q" "p1_name b' = p1_name b" "p2_name b' = p2_name b"
    if "evolves (side_of b (opponent_of b q)) c b'" "\<not> is_battle_over c" "is_battle_over b'"
       "q = p1_name b \<or> q = p2_name b" "p1_name c = p1_name b" "p2_name c = p2_name b"
    for q c b'
  proof -
    have "side_of c (opponent_of c q) = side_of b (opponent_of b q)"
      by (rule side_opponent_names) (simp_all add: that)
    with that(1) have "evolves (side_of c (opponent_of c q)) c b'" by simp
    from evolves_winner_of_actor[OF this _ that(2,3)] that(4,5,6)
    show "get_winner b' = Some q" by simp
    from that(1,5,6) show "p1_name b' = p1_name b" "p2_name b' = p2_name b"
      by (simp_all add: evolves_def)
  qed
  show ?thesis
  proof (rule execute_turn_shape[OF r1 r2, where ?a1.0 = a1 and ?a2.0 = a2 and g = g])
    fix first second g0 e1 b1 g1
    assume ended:
      "turn_order b r1 r2 a1 a2 g = (first, second, g0)"
      "evolves (side_of b (opponent_of b (fst first))) (b\<lparr>current_turn := current_turn b + 1\<rparr>) b1"
      "is_battle_over b1"
      "execute_turn b a1 a2 g =
         Inr (\<lparr>turn = current_turn b + 1, events = [e1], p1_active = Some r1,
               p2_active = Some r2\<rparr>, b1\<lparr>winner := get_winner b1\<rparr>, g1)"
    have who: "fst first = p1_name b \<or> fst first = p2_name b"
      using turn_order_names[OF ended(1)] by blast
    have w: "get_winner b1 = Some (fst first)"
      by (rule won(1)[OF ended(2) live0 ended(3) who]) simp_all
    have a: "alive P1 b1 \<or> alive P2 b1" by (rule two[OF ended(2) live0])
    from ended(1,4) w a who r1 r2 show ?thesis by auto
  next
    fix first second g0 e1 b1 g1 rec2 b2 g2
    assume continued:
      "turn_order b r1 r2 a1 a2 g = (first, second, g0)"
      "evolves (side_of b (opponent_of b (fst first))) (b\<lparr>current_turn := current_turn b + 1\<rparr>) b1"
      "\<not> is_battle_over b1"
      "evolves (side_of b (opponent_of b (fst second))) b1 b2"
      "events rec2 = [e1] \<and> b2 = b1 \<or> (\<exists>e2. events rec2 = [e1, e2])"
      "execute_turn b a1 a2 g =
         Inr (rec2, (if is_battle_over b2 then b2\<lparr>winner := get_winner b2\<rparr> else b2)
                      \<lparr>turn_history := turn_history b2 @ [rec2]\<rparr>, g2)"
    have who: "fst second = p1_name b \<or> fst second = p2_name b"
      using turn_order_names[OF continued(1)] by blast
    have nm1: "p1_name b1 = p1_name b" "p2_name b1 = p2_name b"
      using continued(2) by (simp_all add: evolves_def)
    have a: "alive P1 b2 \<or> alive P2 b2" by (rule two[OF continued(4,3)])
    show ?thesis
    proof (cases "is_battle_over b2")
      case True
      have w: "get_winner b2 = Some (fst second)"
        by (rule won(1)[OF continued(4,3) True who nm1])
      from True continued(3,5) have "length (events rec2) = 2" by auto
      with continued(1,6) True w a who r1 r2 show ?thesis by auto
    next
      case False
      then have "get_winner b2 = None"
        by (auto simp: is_battle_over_def get_winner_def Let_def)
      with continued(6) False a show ?thesis by simp
    qed
  qed
qed

theorem draw_not_reachable_witness:
  "\<not> is_battle_over last_units_match \<and>
   (\<exists>rec b' g'.
      execute_turn last_units_match (action_of ''alice'' ''attack'') (action_of ''bob'' ''attack'')
        (sconst (1 / 2)) = Inr (rec, b', g') \<and>
      (alive P1 b' \<or> alive P2 b') \<and>
      get_winner b' \<in> {None, Some (p1_name last_units_match), Some (p2_name last_units_match)})"
proof -
  have 1: "\<not> is_battle_over last_units_match"
    by (simp add: scenario_defs is_battle_over_def)
  from draw_not_reachable [OF 1, of "action_of ''alice'' ''attack''"
      "action_of ''bob'' ''attack''" "sconst (1 / 2)"] 1
  show ?thesis by blast
qed

text \<open>Each side is down to its last unit, and each attack would knock out the other unit.
  Only the first action is resolved: bob's unit is knocked out, alice's unit is untouched,
  and alice wins; the outcome is not a draw.\<close>

theorem no_draw_counterexample:
  "\<not> is_battle_over last_units_match \<and>
   10 \<le> attack (p2_balls last_units_match ! 2) \<and> health (p1_balls last_units_match ! 2) = 10 \<and>
   (case execute_turn last_units_match (action_of ''alice'' ''attack'')
           (action_of ''bob'' ''attack'') (sconst (1 / 2)) of
      Inl e \<Rightarrow> False
    | Inr (rec, b', g') \<Rightarrow>
        length (events rec) = 1 \<and> dead (p2_balls b' ! 2) \<and>
        \<not> dead (p1_balls b' ! 2) \<and> health (p1_balls b' ! 2) = 10 \<and>
        get_winner b' = Some ''alice'' \<and> winner b' \<noteq> Some ''Draw'')"
  by (simp add: scenario_defs run_defs float_evals)

end
